theory Spec2Isabelle
  imports Complex_Main "HOL-Library.Log_Nat"
begin

section \<open>The data of the game\<close>

text \<open>
  The component \<open>BibleGuessGame\<close> of \<open>bible-guess-game.js\<close> is embedded as pure
  functions on a record of its properties. A JavaScript value that may be \<open>undefined\<close>
  is an \<open>option\<close>, with \<open>None\<close> for \<open>undefined\<close>. A handler that can throw returns a
  \<open>completion\<close>, which also carries the state at the moment of the throw, since the
  component lives on after an exception in one of its handlers.
\<close>

datatype error = TypeError | ReferenceError | SyntaxError

text \<open>
  A JavaScript string is a sequence of UTF-16 code units, each given here by its number.
  \<open>utf16\<close> writes out the code units of a string of ASCII characters.
\<close>

type_synonym jsstring = "nat list"

definition utf16 :: "string \<Rightarrow> jsstring" where
  "utf16 str = map of_char str"

text \<open>
  A verse object. The objects built by \<open>loadVerses\<close> have all five fields; the object
  \<open>{}\<close> of the constructor has none, so every field is optional. The field \<open>text\<close> of
  the source is \<open>verse_text\<close> here.
\<close>

record verse =
  verse_text :: "jsstring option"
  book :: "jsstring option"
  chapterNumber :: "nat option"
  verseNumber :: "nat option"
  language :: "jsstring option"

text \<open>
  The feedback message is one of five template strings; the model keeps the template and
  the value spliced into it (\<open>None\<close> is spliced as the text \<open>undefined\<close>).
\<close>

datatype message =
    NoMessage
  | CorrectMessage
  | WrongMessage "jsstring option"
  | SkippedMessage "jsstring option"
  | TimesUpMessage nat

text \<open>
  The callbacks passed to \<open>this.updateComplete.then\<close>: \<open>nextVerse\<close> registers one that
  empties the input field, \<open>submitGuess\<close> one that reveals the feedback. They run as
  microtasks, after the handler that registered them has returned and before the next
  event is delivered.
\<close>

datatype task = ClearInput | RevealFeedback

text \<open>
  The properties of the component. \<open>feedbackStatus\<close> only ever holds one of five ASCII
  literals of the source, the empty string being the status the specification calls
  \<open>none\<close>. \<open>timeLeft\<close> is an integer that the model does not bound from below. \<open>score\<close>
  only ever counts up from 0 by \<open>++\<close>, which is exact on a JavaScript number below
  \<open>2^53\<close>. \<open>timerInterval\<close> says whether the interval that \<open>_timerInterval\<close> refers to is
  still scheduled.
\<close>

record game =
  verses :: "verse list"
  currentVerse :: "verse option"
  score :: nat
  timeLeft :: int
  feedbackVisible :: bool
  feedbackStatus :: string
  feedbackMessage :: message
  gameEnded :: bool
  timerInterval :: bool
  microtasks :: "task list"

datatype completion = Normal game | Throw error game

fun state_of :: "completion \<Rightarrow> game" where
  "state_of (Normal s) = s"
| "state_of (Throw e s) = s"

fun thrown :: "completion \<Rightarrow> error option" where
  "thrown (Normal s) = None"
| "thrown (Throw e s) = Some e"

definition constructor :: game where
  "constructor =
     \<lparr> verses = [],
       currentVerse = Some \<lparr> verse_text = None, book = None, chapterNumber = None,
                             verseNumber = None, language = None \<rparr>,
       score = 0,
       timeLeft = 180,
       feedbackVisible = False,
       feedbackStatus = [],
       feedbackMessage = NoMessage,
       gameEnded = False,
       timerInterval = False,
       microtasks = [] \<rparr>"

section \<open>Strings\<close>

text \<open>
  \<open>String.prototype.trim\<close> removes white space and line terminators from both ends.
  These are the code units U+0009 to U+000D, U+0020, U+00A0, U+1680, U+2000 to U+200A,
  U+2028, U+2029, U+202F, U+205F, U+3000 and U+FEFF; none of them is half of a surrogate
  pair, so trimming goes code unit by code unit.
\<close>

definition is_space :: "nat \<Rightarrow> bool" where
  "is_space c =
     ((0x0009 \<le> c \<and> c \<le> 0x000D) \<or> c = 0x0020 \<or> c = 0x00A0 \<or> c = 0x1680 \<or>
      (0x2000 \<le> c \<and> c \<le> 0x200A) \<or> c = 0x2028 \<or> c = 0x2029 \<or> c = 0x202F \<or>
      c = 0x205F \<or> c = 0x3000 \<or> c = 0xFEFF)"

definition trim :: "jsstring \<Rightarrow> jsstring" where
  "trim str = rev (dropWhile is_space (rev (dropWhile is_space str)))"

text \<open>
  \<open>String.prototype.toLowerCase\<close>. On a string of ASCII code units it maps \<open>A\<close> to \<open>Z\<close>
  onto \<open>a\<close> to \<open>z\<close> and leaves every other code unit alone. On any other string the
  result depends on the Unicode case tables of the engine, which are no part of the
  sources: there the result is what the parameter \<open>unicode_lower\<close> gives.
\<close>

definition is_ascii :: "nat \<Rightarrow> bool" where
  "is_ascii c = (c < 128)"

definition is_upper :: "nat \<Rightarrow> bool" where
  "is_upper c = (65 \<le> c \<and> c \<le> 90)"

definition lower_unit :: "nat \<Rightarrow> nat" where
  "lower_unit c = (if is_upper c then c + 32 else c)"

definition toLowerCase :: "(jsstring \<Rightarrow> jsstring) \<Rightarrow> jsstring \<Rightarrow> jsstring" where
  "toLowerCase unicode_lower str =
     (if list_all is_ascii str then map lower_unit str else unicode_lower str)"

section \<open>Arrays and random numbers\<close>

text \<open>
  Reading \<open>xs[i]\<close>: an index outside the array yields \<open>undefined\<close>.
\<close>

definition at_index :: "'a list \<Rightarrow> int \<Rightarrow> 'a option" where
  "at_index xs i = (if 0 \<le> i \<and> i < int (length xs) then Some (xs ! nat i) else None)"

text \<open>
  \<open>Double m e\<close> is the double whose value is \<open>m / 2^e\<close>. Every double that is at least 0
  and less than \<open>2^53\<close> has this form with a mantissa \<open>m\<close> below \<open>2^53\<close> and an exponent
  \<open>e\<close> of at most 1074, and every such pair is a double. \<open>Math.random()\<close> returns a
  double that is at least 0 and less than 1.
\<close>

datatype double = Double nat nat

fun value_of :: "double \<Rightarrow> real" where
  "value_of (Double m e) = real m / 2 ^ e"

fun is_double :: "double \<Rightarrow> bool" where
  "is_double (Double m e) = (m < 2 ^ 53 \<and> e \<le> 1074)"

fun random_value :: "double \<Rightarrow> bool" where
  "random_value (Double m e) = (is_double (Double m e) \<and> m < 2 ^ e)"

text \<open>
  Rounding a natural number to the nearest one with at most 53 significant binary
  digits, a tie going to the even mantissa. \<open>floorlog 2 a\<close> is the number of binary digits
  of \<open>a\<close>; with \<open>s\<close> digits too many, the last \<open>s\<close> digits are cut off and the rest goes up
  by one when what was cut is more than half a unit, or exactly half and the rest is
  odd.
\<close>

definition round53 :: "nat \<Rightarrow> nat" where
  "round53 a =
     (let s = floorlog 2 a - 53;
          q = a div 2 ^ s;
          r = a mod 2 ^ s
      in (if 2 ^ s < 2 * r \<or> (2 * r = 2 ^ s \<and> odd q) then q + 1 else q) * 2 ^ s)"

text \<open>
  \<open>Math.floor(Math.random() * n)\<close> for the length \<open>n\<close> of an array (an integer below
  \<open>2^32\<close>, exact as a double), with the double \<open>m / 2^e\<close> that \<open>Math.random()\<close> returned. The
  product of the two doubles is the exact product \<open>m * n / 2^e\<close> rounded to the nearest
  double; the exponent of its last digit is at least \<open>-e\<close>, which is at least -1074, and
  the product is below \<open>2^32\<close>, so only the 53 digits of the mantissa limit it, and the
  rounded product is \<open>round53 (m * n) / 2^e\<close>. Its floor is the quotient of the division
  by \<open>2^e\<close>.
\<close>

fun random_index :: "double \<Rightarrow> nat \<Rightarrow> int" where
  "random_index (Double m e) n = int (round53 (m * n) div 2 ^ e)"

section \<open>The round controller\<close>

text \<open>\<open>r\<close> is the value of \<open>Math.random()\<close>.\<close>

definition nextVerse :: "double \<Rightarrow> game \<Rightarrow> game" where
  "nextVerse r s =
     s \<lparr> feedbackVisible := False,
         feedbackStatus := [],
         feedbackMessage := NoMessage,
         currentVerse := at_index (verses s) (random_index r (length (verses s))),
         microtasks := microtasks s @ [ClearInput] \<rparr>"

text \<open>
  \<open>submitGuess\<close> reads the element \<open>#guess\<close>; \<open>input\<close> is \<open>None\<close> when there is no such
  element and otherwise holds its value. With \<open>input?.value.trim()\<close> the guess is
  \<open>undefined\<close> in the first case. Reading \<open>.book\<close> of an undefined current verse, or
  calling \<open>toLowerCase\<close> on an undefined book, throws before anything is assigned.
\<close>

definition submitGuess :: "(jsstring \<Rightarrow> jsstring) \<Rightarrow> jsstring option \<Rightarrow> game \<Rightarrow> completion" where
  "submitGuess unicode_lower input s =
     (if feedbackVisible s \<or> gameEnded s then Normal s
      else
        case map_option trim input of
          None \<Rightarrow> Normal s
        | Some guess \<Rightarrow>
            if guess = [] then Normal s
            else
              case currentVerse s of
                None \<Rightarrow> Throw TypeError s
              | Some v \<Rightarrow>
                  (case book v of
                     None \<Rightarrow> Throw TypeError s
                   | Some b \<Rightarrow>
                       Normal
                         ((if toLowerCase unicode_lower guess = toLowerCase unicode_lower b
                           then s \<lparr> score := score s + 1,
                                    feedbackStatus := ''correct'',
                                    feedbackMessage := CorrectMessage \<rparr>
                           else s \<lparr> feedbackStatus := ''wrong'',
                                    feedbackMessage := WrongMessage (Some b) \<rparr>)
                          \<lparr> microtasks := microtasks s @ [RevealFeedback] \<rparr>)))"

text \<open>
  \<open>skipVerse\<close> assigns the status first and builds the message next; the message reads
  \<open>this.currentVerse.book\<close>, which throws when the current verse is undefined, with the
  status already assigned.
\<close>

definition skipVerse :: "game \<Rightarrow> completion" where
  "skipVerse s =
     (if feedbackVisible s \<or> gameEnded s then Normal s
      else
        case currentVerse s of
          None \<Rightarrow> Throw TypeError (s \<lparr> feedbackStatus := ''skipped'' \<rparr>)
        | Some v \<Rightarrow>
            Normal (s \<lparr> feedbackStatus := ''skipped'',
                        feedbackMessage := SkippedMessage (book v),
                        feedbackVisible := True \<rparr>))"

definition endGame :: "game \<Rightarrow> game" where
  "endGame s =
     s \<lparr> gameEnded := True,
         feedbackStatus := ''ended'',
         feedbackMessage := TimesUpMessage (score s),
         feedbackVisible := True \<rparr>"

text \<open>The callback that \<open>startGame\<close> hands to \<open>setInterval\<close>.\<close>

definition tick :: "game \<Rightarrow> game" where
  "tick s =
     (if timeLeft s > 0 then s \<lparr> timeLeft := timeLeft s - 1 \<rparr>
      else endGame (s \<lparr> timerInterval := False \<rparr>))"

definition startGame :: "double \<Rightarrow> game \<Rightarrow> game" where
  "startGame r s = (nextVerse r s) \<lparr> timerInterval := True \<rparr>"

section \<open>Loading a pool of verses\<close>

text \<open>
  An entry of \<open>api.books\<close>. The module \<open>bible-api.js\<close> that exports the list is not part
  of the sources at hand, so the list is a parameter of \<open>loadVerses\<close>. The field \<open>id\<close> of
  the source is \<open>ident\<close> here; \<open>en\<close> is the English name, read as \<open>randomBB[lang]\<close>.
\<close>

record bible_book =
  ident :: jsstring
  en :: "jsstring option"

text \<open>
  What the network answers: \<open>fetch\<close> rejects (a \<open>TypeError\<close>), or \<open>response.json()\<close>
  rejects (a \<open>SyntaxError\<close>), or the document arrives with its array of chapters, each
  an array of verse strings.
\<close>

datatype response = FetchRejected | JsonRejected | Document "jsstring list list"

text \<open>
  The body of the \<open>try\<close> block, up to the assignment to \<open>this.verses\<close>: it either throws
  or yields the new pool. \<open>r2\<close> is the random number drawn for the chapter.
\<close>

definition try_block :: "bible_book option \<Rightarrow> response \<Rightarrow> double \<Rightarrow> error + verse list" where
  "try_block randomBB resp r2 =
     (case randomBB of
        None \<Rightarrow> Inl TypeError
      | Some bb \<Rightarrow>
          (case resp of
             FetchRejected \<Rightarrow> Inl TypeError
           | JsonRejected \<Rightarrow> Inl SyntaxError
           | Document chapters \<Rightarrow>
               (let chapterIndex = random_index r2 (length chapters) in
                case at_index chapters chapterIndex of
                  None \<Rightarrow> Inl TypeError
                | Some chapter \<Rightarrow>
                    Inr (map (\<lambda>(v, verseIndex).
                           \<lparr> verse_text = Some v,
                             book = en bb,
                             chapterNumber = Some (nat (chapterIndex + 1)),
                             verseNumber = Some (verseIndex + 1),
                             language = Some (utf16 ''en'') \<rparr>)
                         (zip chapter [0 ..< length chapter])))))"

text \<open>
  The names bound where the \<open>catch\<close> block runs: its parameter \<open>err\<close>, and the bindings of
  the module (\<open>LitElement\<close>, \<open>html\<close>, \<open>api\<close>, \<open>BibleGuessGame\<close>). The \<open>const\<close> declarations
  of the \<open>try\<close> block (\<open>lang\<close>, \<open>randomBB\<close>, \<open>response\<close>, \<open>data\<close>, \<open>chapterIndex\<close>,
  \<open>chapter\<close>) are local to that block and gone when the \<open>catch\<close> block runs. Reading a
  name that is not bound throws a \<open>ReferenceError\<close>; \<open>read_name scope name v\<close> reads a name
  that holds \<open>v\<close> where it is bound.
\<close>

definition catch_scope :: "string list" where
  "catch_scope = [''err'', ''LitElement'', ''html'', ''api'', ''BibleGuessGame'']"

definition read_name :: "string list \<Rightarrow> string \<Rightarrow> 'a \<Rightarrow> error + 'a" where
  "read_name scope name v = (if name \<in> set scope then Inr v else Inl ReferenceError)"

text \<open>
  The \<open>catch\<close> block: after logging, the array literal is evaluated, and in it
  \<open>randomBB.id\<close>; only then would \<open>this.verses\<close> be assigned. The argument \<open>randomBB\<close> is
  what the constant of that name held in the \<open>try\<close> block.
\<close>

definition catch_block :: "bible_book option \<Rightarrow> game \<Rightarrow> completion" where
  "catch_block randomBB s =
     (case read_name catch_scope ''randomBB'' randomBB of
        Inl e \<Rightarrow> Throw e s
      | Inr None \<Rightarrow> Throw TypeError s
      | Inr (Some bb) \<Rightarrow>
          Normal (s \<lparr> verses :=
            [\<lparr> verse_text = Some (utf16 ''Error, could not find this book id on the API:''),
               book = Some (ident bb),
               chapterNumber = None, verseNumber = None, language = None \<rparr>] \<rparr>))"

text \<open>\<open>r1\<close> is the random number drawn for the book.\<close>

definition loadVerses ::
    "bible_book list \<Rightarrow> double \<Rightarrow> response \<Rightarrow> double \<Rightarrow> game \<Rightarrow> completion" where
  "loadVerses books r1 resp r2 s =
     (let randomBB = at_index books (random_index r1 (length books)) in
      case try_block randomBB resp r2 of
        Inr pool \<Rightarrow> Normal (s \<lparr> verses := pool \<rparr>)
      | Inl err \<Rightarrow> catch_block randomBB s)"

text \<open>
  \<open>connectedCallback\<close> awaits \<open>loadVerses\<close> and then starts the game; when the awaited
  promise rejects, the rest of the function does not run.
\<close>

definition connectedCallback ::
    "bible_book list \<Rightarrow> double \<Rightarrow> response \<Rightarrow> double \<Rightarrow> double \<Rightarrow> game \<Rightarrow> completion" where
  "connectedCallback books r1 resp r2 r3 s =
     (case loadVerses books r1 resp r2 s of
        Throw e s' \<Rightarrow> Throw e s'
      | Normal s' \<Rightarrow> Normal (startGame r3 s'))"

section \<open>Events\<close>

text \<open>
  The browser delivers one event at a time: it runs the handler, then the microtasks
  the handler has queued, and only then the next event. An exception that leaves a
  handler is reported and the component stays as it was at the throw. The parameter
  \<open>unicode_lower\<close> is that of \<open>toLowerCase\<close>, handed on to \<open>submitGuess\<close>.
\<close>

fun run_task :: "task \<Rightarrow> game \<Rightarrow> game" where
  "run_task ClearInput s = s"
| "run_task RevealFeedback s = s \<lparr> feedbackVisible := True \<rparr>"

definition settle :: "game \<Rightarrow> game" where
  "settle s = fold run_task (microtasks s) (s \<lparr> microtasks := [] \<rparr>)"

datatype event =
    Tick
  | NextVerse double
  | SubmitGuess "jsstring option"
  | SkipVerse
  | EndGame
  | LoadVerses "bible_book list" double response double

fun handler :: "(jsstring \<Rightarrow> jsstring) \<Rightarrow> event \<Rightarrow> game \<Rightarrow> completion" where
  "handler unicode_lower Tick s = Normal (tick s)"
| "handler unicode_lower (NextVerse r) s = Normal (nextVerse r s)"
| "handler unicode_lower (SubmitGuess input) s = submitGuess unicode_lower input s"
| "handler unicode_lower SkipVerse s = skipVerse s"
| "handler unicode_lower EndGame s = Normal (endGame s)"
| "handler unicode_lower (LoadVerses books r1 resp r2) s = loadVerses books r1 resp r2 s"

definition deliver :: "(jsstring \<Rightarrow> jsstring) \<Rightarrow> event \<Rightarrow> game \<Rightarrow> game" where
  "deliver unicode_lower e s = settle (state_of (handler unicode_lower e s))"

fun run :: "(jsstring \<Rightarrow> jsstring) \<Rightarrow> event list \<Rightarrow> game \<Rightarrow> game" where
  "run unicode_lower [] s = s"
| "run unicode_lower (e # es) s = run unicode_lower es (deliver unicode_lower e s)"

text \<open>
  The state in which the first event finds the component: the constructor has run, a
  pool \<open>P\<close> has been loaded and \<open>startGame\<close> has drawn the first verse with the random
  number \<open>r\<close>.
\<close>

definition initial :: "verse list \<Rightarrow> double \<Rightarrow> game" where
  "initial P r = settle (startGame r (constructor \<lparr> verses := P \<rparr>))"

text \<open>
  Two conditions on a sequence of events. \<open>endGame\<close> is called only where the interval
  callback calls it, with the clock not above 0; and \<open>nextVerse\<close> is not called while the
  status is \<open>ended\<close>. Every other event may come at any time, a tick also after the
  interval has been cleared. A sequence that keeps both conditions is \<open>orderly\<close>. The
  source has no other caller of \<open>endGame\<close> than the interval callback, and a view that
  \<open>render\<close> has built from the status \<open>ended\<close> has no button \<open>Next\<close>. \<open>nextVerse\<close> itself
  checks nothing, and \<open>render\<close>, which reads fields of the current verse, builds no new
  view while that verse is undefined; so being orderly is a condition on the sequence,
  not something the component enforces in every case.
\<close>

fun in_order :: "event \<Rightarrow> game \<Rightarrow> bool" where
  "in_order EndGame s = (timeLeft s \<le> 0)"
| "in_order (NextVerse r) s = (feedbackStatus s \<noteq> ''ended'')"
| "in_order Tick s = True"
| "in_order (SubmitGuess input) s = True"
| "in_order SkipVerse s = True"
| "in_order (LoadVerses books r1 resp r2) s = True"

fun orderly :: "(jsstring \<Rightarrow> jsstring) \<Rightarrow> event list \<Rightarrow> game \<Rightarrow> bool" where
  "orderly unicode_lower [] s = True"
| "orderly unicode_lower (e # es) s =
     (in_order e s \<and> orderly unicode_lower es (deliver unicode_lower e s))"

text \<open>The events that are a guess or a skip.\<close>

fun guess_or_skip :: "event \<Rightarrow> bool" where
  "guess_or_skip (SubmitGuess input) = True"
| "guess_or_skip SkipVerse = True"
| "guess_or_skip e = False"

section \<open>Equality up to letter case\<close>

text \<open>
  The reading of the specification, stated without \<open>toLowerCase\<close>. Two code units are the
  same letter when they are equal or one is the capital of the other, the capitals and
  the small letters being the two alphabets written out. Two ASCII strings are equal up
  to letter case when they have the same length and the same letters, place by place.
  For a string with a code unit outside ASCII, being equal up to letter case cannot mean
  anything but what the case tables of Unicode say.
\<close>

definition capitals :: jsstring where
  "capitals = utf16 ''ABCDEFGHIJKLMNOPQRSTUVWXYZ''"

definition smalls :: jsstring where
  "smalls = utf16 ''abcdefghijklmnopqrstuvwxyz''"

definition same_letter :: "nat \<Rightarrow> nat \<Rightarrow> bool" where
  "same_letter c d =
     (c = d \<or> (c, d) \<in> set (zip capitals smalls) \<or> (d, c) \<in> set (zip capitals smalls))"

definition equal_up_to_case :: "jsstring \<Rightarrow> jsstring \<Rightarrow> bool" where
  "equal_up_to_case a b = list_all2 same_letter a b"

definition same_ignoring_case :: "(jsstring \<Rightarrow> jsstring) \<Rightarrow> jsstring \<Rightarrow> jsstring \<Rightarrow> bool" where
  "same_ignoring_case unicode_lower a b =
     (if list_all is_ascii a \<and> list_all is_ascii b then equal_up_to_case a b
      else toLowerCase unicode_lower a = toLowerCase unicode_lower b)"

section \<open>Sample data\<close>

text \<open>
  The verse of the end-to-end scenario of the specification and two more, as a pool of
  three; a book list with one entry; and three values of \<open>Math.random()\<close>: 0, one half,
  and the double next to seven tenths, \<open>6305039478318694 / 2^53\<close>.
\<close>

definition genesis :: verse where
  "genesis =
     \<lparr> verse_text = Some (utf16 ''In the beginning...''),
       book = Some (utf16 ''Genesis''),
       chapterNumber = Some 1,
       verseNumber = Some 1,
       language = Some (utf16 ''en'') \<rparr>"

definition exodus :: verse where
  "exodus =
     \<lparr> verse_text = Some (utf16 ''Let my people go''),
       book = Some (utf16 ''Exodus''),
       chapterNumber = Some 5,
       verseNumber = Some 1,
       language = Some (utf16 ''en'') \<rparr>"

definition psalms :: verse where
  "psalms =
     \<lparr> verse_text = Some (utf16 ''The Lord is my shepherd''),
       book = Some (utf16 ''Psalms''),
       chapterNumber = Some 23,
       verseNumber = Some 1,
       language = Some (utf16 ''en'') \<rparr>"

definition sample_pool :: "verse list" where
  "sample_pool = [genesis, exodus, psalms]"

definition sample_books :: "bible_book list" where
  "sample_books = [\<lparr> ident = utf16 ''GEN'', en = Some (utf16 ''Genesis'') \<rparr>]"

definition zero :: double where
  "zero = Double 0 0"

definition one_half :: double where
  "one_half = Double 1 1"

definition seven_tenths :: double where
  "seven_tenths = Double 6305039478318694 53"

text \<open>
  A whole game on the pool: a correct guess, the next verse, a skip, and then the 181
  ticks that end it.
\<close>

definition sample_game :: "event list" where
  "sample_game =
     [SubmitGuess (Some (utf16 ''genesis'')), NextVerse one_half, SkipVerse] @ replicate 181 Tick"

section \<open>Invariants\<close>

text \<open>
  Between two events no microtask is pending, the clock is not negative, visible
  feedback has a status and the status \<open>ended\<close> is there only in a game that has ended
  (\<open>quiet\<close>); every sequence of events keeps this. An orderly
  sequence also keeps the game \<open>settled\<close>: it has ended exactly when the status is
  \<open>ended\<close>, and then the clock is at 0 and the feedback is visible.
\<close>

definition quiet :: "game \<Rightarrow> bool" where
  "quiet s = (microtasks s = [] \<and> 0 \<le> timeLeft s \<and>
              (feedbackVisible s \<longrightarrow> feedbackStatus s \<noteq> []) \<and>
              (feedbackStatus s = ''ended'' \<longrightarrow> gameEnded s))"

definition settled :: "game \<Rightarrow> bool" where
  "settled s = (quiet s \<and> (gameEnded s \<longleftrightarrow> feedbackStatus s = ''ended'') \<and>
                (gameEnded s \<longrightarrow> timeLeft s = 0 \<and> feedbackVisible s))"

section \<open>Facts about rounding and random indices\<close>

lemma floorlog2_eqI: "2 ^ k \<le> a \<Longrightarrow> a < 2 ^ Suc k \<Longrightarrow> floorlog 2 a = Suc k"
  by (metis floorlog_ge_SucI floorlog_leI le_antisym one_less_numeral_iff semiring_norm(76) zero_le)

lemma round53_exact: "a < 2 ^ 53 \<Longrightarrow> round53 a = a"
proof -
  assume "a < 2 ^ 53"
  then have "floorlog 2 a \<le> 53" by (simp add: floorlog_le_iff)
  then show ?thesis by (simp add: round53_def)
qed

text \<open>Rounding takes a number up by at most half a unit of its last kept digit.\<close>

lemma round53_le:
  assumes "0 < a"
  shows "2 * round53 a \<le> 2 * a + 2 ^ (floorlog 2 a - 53)"
proof -
  define s where "s = floorlog 2 a - 53"
  define q where "q = a div 2 ^ s"
  define r where "r = a mod 2 ^ s"
  have a: "a = q * 2 ^ s + r" unfolding q_def r_def by (rule div_mult_mod_eq [symmetric])
  have rlt: "r < 2 ^ s" by (simp add: r_def)
  have R: "round53 a = (if 2 ^ s < 2 * r \<or> (2 * r = 2 ^ s \<and> odd q) then q + 1 else q) * 2 ^ s"
    by (simp add: round53_def Let_def s_def q_def r_def)
  show ?thesis
  proof (cases "2 ^ s < 2 * r \<or> (2 * r = 2 ^ s \<and> odd q)")
    case True
    then have "(2::nat) ^ s \<le> 2 * r" by auto
    moreover from True R have "round53 a = q * 2 ^ s + 2 ^ s" by (simp add: algebra_simps)
    ultimately show ?thesis unfolding s_def [symmetric] using a by linarith
  next
    case False
    with R have "round53 a = q * 2 ^ s" by simp
    then show ?thesis unfolding s_def [symmetric] using a by linarith
  qed
qed

lemma round53_product_less:
  assumes m53: "m < 2 ^ 53" and m1: "m < 2 ^ e" and n: "0 < n"
  shows "round53 (m * n) < n * 2 ^ e"
proof (cases "m * n < 2 ^ 53")
  case True
  from m1 n have "m * n < 2 ^ e * n" by simp
  with True show ?thesis by (simp add: round53_exact mult.commute)
next
  case False
  define a where "a = m * n"
  define s where "s = floorlog 2 a - 53"
  from False have big: "2 ^ 53 \<le> a" by (simp add: a_def)
  then have pos: "0 < a" by (rule less_le_trans [OF zero_less_power [OF pos2]])
  from big have "53 < floorlog 2 a"
    using floorlog_ge_SucI [of 2 53 a] by simp
  then have fl: "floorlog 2 a = s + 53" by (simp add: s_def)
  from floorlog_bounds [OF pos, of 2] fl have low: "2 ^ (s + 52) \<le> a"
    by (simp add: add.commute)
  have "a < 2 ^ 53 * n" using m53 n by (simp add: a_def)
  with low have "(2::nat) ^ (s + 52) < 2 ^ 53 * n" by simp
  then have "(2::nat) ^ 52 * 2 ^ s < 2 ^ 52 * (2 * n)" by (simp add: power_add mult.commute)
  then have half: "(2::nat) ^ s < 2 * n" by (simp only: mult_less_cancel1) 
  have "a + n \<le> n * 2 ^ e"
  proof -
    from m1 have "Suc m \<le> 2 ^ e" by simp
    then have "Suc m * n \<le> 2 ^ e * n" by (rule mult_le_mono1)
    then show ?thesis by (simp add: a_def mult.commute)
  qed
  moreover from round53_le [OF pos] have "2 * round53 a \<le> 2 * a + 2 ^ s" by (simp add: s_def)
  ultimately show ?thesis using half unfolding a_def [symmetric] by linarith
qed

lemma random_index_range:
  assumes "random_value r" and "0 < n"
  shows "0 \<le> random_index r n \<and> random_index r n < int n"
proof (cases r)
  case (Double m e)
  with assms(1) have "m < 2 ^ 53" "m < 2 ^ e" by simp_all
  from round53_product_less [OF this assms(2)]
  have "round53 (m * n) div 2 ^ e < n" by (simp add: less_mult_imp_div_less)
  with Double show ?thesis by simp
qed

lemma random_index_empty: "random_index r 0 = 0"
  by (cases r) (simp add: round53_def)

lemma random_value_range: "random_value r \<Longrightarrow> 0 \<le> value_of r \<and> value_of r < 1"
  by (cases r) simp

text \<open>
  The product of the double next to seven tenths and 10 is rounded up to 7; the exact
  product lies below 7.
\<close>

lemma seven_tenths_of_ten: "random_index seven_tenths 10 = 7"
proof -
  have "floorlog 2 63050394783186940 = Suc 55"
    by (rule floorlog2_eqI) simp_all
  then show ?thesis
    by (simp add: seven_tenths_def round53_def Let_def)
qed

lemma seven_tenths_below: "value_of seven_tenths * 10 < 7"
  by (simp add: seven_tenths_def)

section \<open>Facts about strings\<close>

lemma trim_empty_iff: "trim str = [] \<longleftrightarrow> list_all is_space str"
proof -
  have "trim str = [] \<longleftrightarrow> (\<forall>c \<in> set (dropWhile is_space str). is_space c)"
    by (simp add: trim_def dropWhile_eq_Nil_conv)
  also have "\<dots> \<longleftrightarrow> dropWhile is_space str = []"
  proof
    assume all: "\<forall>c \<in> set (dropWhile is_space str). is_space c"
    show "dropWhile is_space str = []"
    proof (rule ccontr)
      assume ne: "dropWhile is_space str \<noteq> []"
      then have "\<not> is_space (hd (dropWhile is_space str))" by (rule hd_dropWhile)
      moreover from ne have "hd (dropWhile is_space str) \<in> set (dropWhile is_space str)"
        by simp
      ultimately show False using all by blast
    qed
  next
    assume e: "dropWhile is_space str = []"
    show "\<forall>c \<in> set (dropWhile is_space str). is_space c" unfolding e by simp
  qed
  also have "\<dots> \<longleftrightarrow> list_all is_space str"
    unfolding dropWhile_eq_Nil_conv list_all_iff ..
  finally show ?thesis .
qed

lemma alphabets: "set (zip capitals smalls) = (\<lambda>c. (c, c + 32)) ` {65 .. 90}"
proof -
  have "{65 .. 90} = set [65 ..< 91 :: nat]"
    by (simp only: set_upt atLeastLessThanSuc_atLeastAtMost [symmetric]) simp
  also have "[65 ..< 91 :: nat] = map of_char ''ABCDEFGHIJKLMNOPQRSTUVWXYZ''"
    by (simp add: upt_rec)
  finally show ?thesis
    by (simp add: capitals_def smalls_def utf16_def)
qed

lemma capital_pair: "(c, d) \<in> set (zip capitals smalls) \<longleftrightarrow> is_upper c \<and> d = c + 32"
  unfolding alphabets is_upper_def by auto

lemma lower_unit_eq_iff: "lower_unit c = lower_unit d \<longleftrightarrow> same_letter c d"
  by (auto simp: lower_unit_def same_letter_def capital_pair is_upper_def)

lemma map_lower_unit_eq_iff: "map lower_unit a = map lower_unit b \<longleftrightarrow> equal_up_to_case a b"
proof -
  have "map lower_unit a = map lower_unit b \<longleftrightarrow> list_all2 (=) (map lower_unit a) (map lower_unit b)"
    by (simp add: list.rel_eq)
  also have "\<dots> \<longleftrightarrow> list_all2 (\<lambda>c d. lower_unit c = lower_unit d) a b"
    by (simp add: list.rel_map)
  finally show ?thesis
    by (simp add: equal_up_to_case_def lower_unit_eq_iff)
qed

lemma toLowerCase_eq_iff:
  "toLowerCase u a = toLowerCase u b \<longleftrightarrow> same_ignoring_case u a b"
  by (simp add: same_ignoring_case_def toLowerCase_def map_lower_unit_eq_iff)

section \<open>Events preserve the invariants\<close>

lemma fold_run_task:
  "fold run_task ts s = s \<lparr> feedbackVisible := feedbackVisible s \<or> RevealFeedback \<in> set ts \<rparr>"
proof (induction ts arbitrary: s)
  case Nil
  show ?case by simp
next
  case (Cons t ts)
  show ?case by (cases t) (simp_all add: Cons.IH)
qed

lemma settle_eq:
  "settle s = s \<lparr> microtasks := [],
                  feedbackVisible := feedbackVisible s \<or> RevealFeedback \<in> set (microtasks s) \<rparr>"
  by (simp add: settle_def fold_run_task)

lemma settle_quiet: "microtasks s = [] \<Longrightarrow> settle s = s"
  by (simp add: settle_def)

lemma loadVerses_state:
  "\<exists>pool. state_of (loadVerses books r1 resp r2 s) = s \<lparr> verses := pool \<rparr>"
proof (cases "try_block (at_index books (random_index r1 (length books))) resp r2")
  case (Inl e)
  then have "state_of (loadVerses books r1 resp r2 s) = s \<lparr> verses := verses s \<rparr>"
    by (simp add: loadVerses_def catch_block_def read_name_def catch_scope_def)
  then show ?thesis ..
next
  case (Inr pool)
  then have "state_of (loadVerses books r1 resp r2 s) = s \<lparr> verses := pool \<rparr>"
    by (simp add: loadVerses_def)
  then show ?thesis ..
qed

lemma deliver_LoadVerses:
  "\<exists>pool. deliver u (LoadVerses books r1 resp r2) s = settle (s \<lparr> verses := pool \<rparr>)"
  using loadVerses_state [of books r1 resp r2 s] by (auto simp: deliver_def)

lemmas handlers =
  deliver_def settle_eq tick_def endGame_def nextVerse_def submitGuess_def skipVerse_def

lemma quiet_deliver: "quiet s \<Longrightarrow> quiet (deliver u e s)"
proof (cases e)
  case (LoadVerses books r1 resp r2)
  assume "quiet s"
  with deliver_LoadVerses [of u books r1 resp r2 s] LoadVerses show ?thesis
    by (auto simp: quiet_def settle_eq)
qed (auto simp: quiet_def handlers split: option.split)

lemma quiet_run: "quiet s \<Longrightarrow> quiet (run u es s)"
  by (induction es arbitrary: s) (simp_all add: quiet_deliver)

lemma settled_deliver:
  assumes "settled s" and "in_order e s"
  shows "settled (deliver u e s)"
proof (cases e)
  case Tick
  with assms show ?thesis by (auto simp: settled_def quiet_def handlers)
next
  case (NextVerse r)
  with assms show ?thesis by (auto simp: settled_def quiet_def handlers)
next
  case (SubmitGuess input)
  with assms show ?thesis
    by (auto simp: settled_def quiet_def handlers split: option.split)
next
  case SkipVerse
  with assms show ?thesis
    by (auto simp: settled_def quiet_def handlers split: option.split)
next
  case EndGame
  with assms show ?thesis by (auto simp: settled_def quiet_def handlers)
next
  case (LoadVerses books r1 resp r2)
  with deliver_LoadVerses [of u books r1 resp r2 s] assms(1) show ?thesis
    by (auto simp: settled_def quiet_def settle_eq)
qed

lemma timeLeft_deliver:
  "timeLeft (deliver u e s) = (if e = Tick \<and> 0 < timeLeft s then timeLeft s - 1 else timeLeft s)"
proof (cases e)
  case Tick
  then show ?thesis by (simp add: handlers)
next
  case (NextVerse r)
  then show ?thesis by (simp add: handlers)
next
  case (SubmitGuess input)
  then show ?thesis by (simp add: handlers split: option.split)
next
  case SkipVerse
  then show ?thesis by (simp add: handlers split: option.split)
next
  case EndGame
  then show ?thesis by (simp add: handlers)
next
  case (LoadVerses books r1 resp r2)
  with deliver_LoadVerses [of u books r1 resp r2 s] show ?thesis
    by (auto simp: settle_eq)
qed

lemma expiry: "timeLeft s \<le> 0 \<Longrightarrow> gameEnded (deliver u Tick s)"
  by (simp add: handlers)

lemma ended_deliver:
  assumes "settled s" and "gameEnded s" and "in_order e s"
  shows "gameEnded (deliver u e s) \<and> score (deliver u e s) = score s"
proof (cases e)
  case Tick
  with assms show ?thesis by (simp add: settled_def handlers)
next
  case (NextVerse r)
  with assms show ?thesis by (simp add: settled_def)
next
  case (SubmitGuess input)
  with assms show ?thesis by (simp add: handlers)
next
  case SkipVerse
  with assms show ?thesis by (simp add: handlers)
next
  case EndGame
  with assms show ?thesis by (simp add: handlers)
next
  case (LoadVerses books r1 resp r2)
  with deliver_LoadVerses [of u books r1 resp r2 s] assms show ?thesis
    by (auto simp: settle_eq)
qed

lemma ended_run:
  "settled s \<Longrightarrow> gameEnded s \<Longrightarrow> orderly u es s \<Longrightarrow>
   gameEnded (run u es s) \<and> score (run u es s) = score s"
proof (induction es arbitrary: s)
  case Nil
  then show ?case by simp
next
  case (Cons e es)
  from Cons.prems have io: "in_order e s" and ord: "orderly u es (deliver u e s)" by simp_all
  from ended_deliver [OF Cons.prems(1,2) io, of u]
  have en: "gameEnded (deliver u e s)" and sc: "score (deliver u e s) = score s" by simp_all
  from Cons.IH [OF settled_deliver [OF Cons.prems(1) io] en ord] sc show ?case by simp
qed

lemma settled_run: "settled s \<Longrightarrow> orderly u es s \<Longrightarrow> settled (run u es s)"
  by (induction es arbitrary: s) (simp_all add: settled_deliver)

text \<open>
  In an orderly sequence the clock goes down by one with every tick until it is at 0,
  and the first tick after that ends the game for good.
\<close>

lemma clock_run:
  "settled s \<Longrightarrow> orderly u es s \<Longrightarrow> timeLeft s = int n \<Longrightarrow>
   timeLeft (run u es s) = int (n - count_list es Tick) \<and>
   (n < count_list es Tick \<longrightarrow> gameEnded (run u es s))"
proof (induction es arbitrary: s n)
  case Nil
  then show ?case by simp
next
  case (Cons e es)
  from Cons.prems have io: "in_order e s" and ord: "orderly u es (deliver u e s)" by simp_all
  have st: "settled (deliver u e s)" by (rule settled_deliver [OF Cons.prems(1) io])
  show ?case
  proof (cases "e = Tick")
    case False
    with Cons.prems(3) have "timeLeft (deliver u e s) = int n" by (simp add: timeLeft_deliver)
    from Cons.IH [OF st ord this] False show ?thesis by simp
  next
    case True
    show ?thesis
    proof (cases n)
      case 0
      with Cons.prems(3) True have tl: "timeLeft (deliver u e s) = int 0"
        by (simp add: timeLeft_deliver)
      from 0 Cons.prems(3) True have "gameEnded (deliver u e s)" by (simp add: expiry)
      from ended_run [OF st this ord] Cons.IH [OF st ord tl] True 0 show ?thesis by simp
    next
      case (Suc m)
      with Cons.prems(3) True have "timeLeft (deliver u e s) = int m"
        by (simp add: timeLeft_deliver)
      from Cons.IH [OF st ord this] True Suc show ?thesis by simp
    qed
  qed
qed

lemma initial_settled: "settled (initial P r) \<and> timeLeft (initial P r) = int 180"
  by (simp add: initial_def startGame_def nextVerse_def constructor_def settle_eq
      settled_def quiet_def)

lemma guarded_deliver:
  assumes "microtasks s = []" "feedbackVisible s \<or> gameEnded s" "guess_or_skip e"
  shows "deliver u e s = s"
  using assms by (cases e) (auto simp: deliver_def submitGuess_def skipVerse_def settle_quiet)

lemma ended_guess_or_skip:
  "microtasks s = [] \<Longrightarrow> gameEnded s \<Longrightarrow> list_all guess_or_skip us \<Longrightarrow> run u us s = s"
  by (induction us) (simp_all add: guarded_deliver)

section \<open>Runs of the interval\<close>

lemma run_append: "run u (es @ fs) s = run u fs (run u es s)"
  by (induction es arbitrary: s) simp_all

lemma orderly_append:
  "orderly u (es @ fs) s \<longleftrightarrow> orderly u es s \<and> orderly u fs (run u es s)"
  by (induction es arbitrary: s) simp_all

lemma count_list_ticks: "count_list (replicate k Tick) Tick = k"
  by (induction k) simp_all

lemma orderly_ticks: "orderly u (replicate k Tick) s"
  by (induction k arbitrary: s) simp_all

lemma run_ticks:
  "microtasks s = [] \<Longrightarrow> int k \<le> timeLeft s \<Longrightarrow>
   run u (replicate k Tick) s = s \<lparr> timeLeft := timeLeft s - int k \<rparr>"
proof (induction k arbitrary: s)
  case 0
  then show ?case by simp
next
  case (Suc k)
  then have d: "deliver u Tick s = s \<lparr> timeLeft := timeLeft s - 1 \<rparr>"
    by (simp add: deliver_def tick_def settle_quiet)
  with Suc.prems have "run u (replicate k Tick) (deliver u Tick s)
      = (deliver u Tick s) \<lparr> timeLeft := timeLeft (deliver u Tick s) - int k \<rparr>"
    by (intro Suc.IH) simp_all
  with d show ?case by simp
qed

section \<open>The sample game\<close>

lemma sample_books_of:
  "book genesis = Some (utf16 ''Genesis'')"
  "book exodus = Some (utf16 ''Exodus'')"
  "book psalms = Some (utf16 ''Psalms'')"
  by (simp_all add: genesis_def exodus_def psalms_def)

lemma sample_draws:
  "random_value zero" "random_value one_half" "random_value seven_tenths"
  "random_index zero (length sample_pool) = 0"
  "random_index one_half (length sample_pool) = 1"
  "random_index seven_tenths (length sample_pool) = 2"
proof -
  have "floorlog 2 18915118434956082 = Suc 54"
    by (rule floorlog2_eqI) simp_all
  then show "random_index seven_tenths (length sample_pool) = 2"
    by (simp add: seven_tenths_def sample_pool_def round53_def Let_def)
qed (simp_all add: zero_def one_half_def seven_tenths_def sample_pool_def round53_exact)

lemma sample_verses:
  "at_index sample_pool 0 = Some genesis"
  "at_index sample_pool 1 = Some exodus"
  "at_index sample_pool 2 = Some psalms"
  by (simp_all add: at_index_def sample_pool_def)

lemma utf16_empty_iff: "utf16 str = [] \<longleftrightarrow> str = []"
  by (simp add: utf16_def)

lemma sample_start:
  "initial sample_pool zero =
     \<lparr> verses = sample_pool, currentVerse = Some genesis, score = 0, timeLeft = 180,
       feedbackVisible = False, feedbackStatus = [], feedbackMessage = NoMessage,
       gameEnded = False, timerInterval = True, microtasks = [] \<rparr>"
  by (simp add: initial_def startGame_def nextVerse_def constructor_def settle_eq
      sample_draws sample_verses)

text \<open>Lower-casing and trimming the guesses of the samples.\<close>

lemma sample_guesses:
  "toLowerCase u (utf16 ''genesis'') = utf16 ''genesis''"
  "toLowerCase u (utf16 ''GENESIS'') = utf16 ''genesis''"
  "toLowerCase u (utf16 ''Genesis'') = utf16 ''genesis''"
  "toLowerCase u (utf16 ''Exodus'') = utf16 ''exodus''"
  "trim (utf16 ''genesis'') = utf16 ''genesis''"
  "trim (utf16 ''GENESIS'') = utf16 ''GENESIS''"
  "trim (utf16 ''Genesis'') = utf16 ''Genesis''"
  "trim (utf16 ''Exodus'') = utf16 ''Exodus''"
  by (simp_all add: toLowerCase_def utf16_def is_ascii_def lower_unit_def is_upper_def
      trim_def is_space_def)

lemma after_guess:
  "deliver u (SubmitGuess (Some (utf16 ''genesis''))) (initial sample_pool zero) =
     (initial sample_pool zero)
       \<lparr> score := 1, feedbackStatus := ''correct'', feedbackMessage := CorrectMessage,
         feedbackVisible := True \<rparr>"
  unfolding sample_start
  by (simp add: deliver_def submitGuess_def settle_eq sample_guesses sample_books_of
      utf16_empty_iff)

text \<open>
  The guesses of the specification against the book \<open>Genesis\<close>, each delivered as an event
  of its own to the sample game.
\<close>

lemma genesis_examples:
  "feedbackStatus (deliver u (SubmitGuess (Some (utf16 ''genesis''))) (initial sample_pool zero)) = ''correct''"
  "feedbackStatus (deliver u (SubmitGuess (Some (utf16 ''GENESIS''))) (initial sample_pool zero)) = ''correct''"
  "feedbackStatus (deliver u (SubmitGuess (Some (utf16 ''Genesis''))) (initial sample_pool zero)) = ''correct''"
  "feedbackStatus (deliver u (SubmitGuess (Some (utf16 ''Exodus''))) (initial sample_pool zero)) = ''wrong''"
  unfolding sample_start
  by (simp_all add: deliver_def submitGuess_def settle_eq sample_guesses sample_books_of
      utf16_empty_iff)
    (simp add: utf16_def)

text \<open>The first three events of the sample game: the score is 1 and the skip is showing.\<close>

lemma sample_opening:
  "run u [SubmitGuess (Some (utf16 ''genesis'')), NextVerse one_half, SkipVerse]
       (initial sample_pool zero) =
     (initial sample_pool zero)
       \<lparr> currentVerse := Some exodus, score := 1, feedbackStatus := ''skipped'',
         feedbackMessage := SkippedMessage (Some (utf16 ''Exodus'')),
         feedbackVisible := True \<rparr>
   \<and> orderly u [SubmitGuess (Some (utf16 ''genesis'')), NextVerse one_half, SkipVerse]
       (initial sample_pool zero)"
  unfolding run.simps orderly.simps after_guess
  unfolding sample_start
  by (simp add: deliver_def nextVerse_def skipVerse_def settle_eq
      sample_draws sample_verses sample_books_of)

lemma sample_game_orderly: "orderly u sample_game (initial sample_pool zero)"
  by (simp only: sample_game_def orderly_append sample_opening orderly_ticks simp_thms)

lemma sample_game_ticks: "count_list sample_game Tick = 181"
  by (simp add: sample_game_def count_list_ticks)

lemma after_skip:
  "deliver u SkipVerse (initial sample_pool zero) =
     (initial sample_pool zero)
       \<lparr> feedbackStatus := ''skipped'',
         feedbackMessage := SkippedMessage (Some (utf16 ''Genesis'')),
         feedbackVisible := True \<rparr>"
  unfolding sample_start
  by (simp add: deliver_def skipVerse_def settle_eq sample_books_of)

lemma after_guess_and_next:
  "run u [SubmitGuess (Some (utf16 ''genesis'')), NextVerse one_half] (initial sample_pool zero) =
     (initial sample_pool zero) \<lparr> currentVerse := Some exodus, score := 1 \<rparr>"
  unfolding run.simps after_guess
  unfolding sample_start
  by (simp add: deliver_def nextVerse_def settle_eq sample_draws sample_verses)

lemma sample_game_over:
  "settled (run u sample_game (initial sample_pool zero)) \<and>
   gameEnded (run u sample_game (initial sample_pool zero))"
proof -
  from initial_settled [of sample_pool zero]
  have st: "settled (initial sample_pool zero)"
    and tl: "timeLeft (initial sample_pool zero) = int 180" by simp_all
  from clock_run [OF st sample_game_orderly tl] settled_run [OF st sample_game_orderly]
  show ?thesis by (simp add: sample_game_ticks)
qed

text \<open>
  Whatever goes wrong in the \<open>try\<close> block, \<open>loadVerses\<close> ends in the \<open>ReferenceError\<close> of
  its \<open>catch\<close> block, with the pool as it was.
\<close>

lemma loadVerses_any_failure:
  "try_block (at_index books (random_index r1 (length books))) resp r2 = Inl e \<Longrightarrow>
   loadVerses books r1 resp r2 s = Throw ReferenceError s"
  by (simp add: loadVerses_def catch_block_def read_name_def catch_scope_def)

section \<open>The claims of the specification\<close>

subsection \<open>Loading\<close>

text \<open>
  C1 says that every fetch or parse failure in \<open>loadVerses\<close> is caught and turned into a
  pool of one placeholder record, so that nothing is thrown to the caller. The code
  does not do that: with the one-book list, both random numbers 0 and a \<open>fetch\<close> that
  rejects, the \<open>catch\<close> block itself throws a \<open>ReferenceError\<close>, the pool stays empty as
  the constructor left it, and \<open>connectedCallback\<close> ends with the same error before it
  starts the game.
\<close>

theorem loadVerses_failure_throws:
  "loadVerses sample_books zero FetchRejected zero constructor
     = Throw ReferenceError constructor \<and>
   verses (state_of (loadVerses sample_books zero FetchRejected zero constructor)) = [] \<and>
   connectedCallback sample_books zero FetchRejected zero zero constructor
     = Throw ReferenceError constructor"
  by (simp add: loadVerses_def connectedCallback_def try_block_def catch_block_def
      read_name_def catch_scope_def sample_books_def at_index_def zero_def round53_exact
      constructor_def)

subsection \<open>The timer\<close>

text \<open>
  C2 as it is written fails: after 180 ticks of the sample game the clock shows 0, but
  the status is not \<open>ended\<close>, \<open>gameEnded\<close> is false, and a correct guess still changes the
  score.
\<close>

theorem not_ended_after_180_ticks:
  "feedbackStatus (run id (replicate 180 Tick) (initial sample_pool zero)) \<noteq> ''ended'' \<and>
   \<not> gameEnded (run id (replicate 180 Tick) (initial sample_pool zero)) \<and>
   score (run id [SubmitGuess (Some (utf16 ''Genesis''))]
           (run id (replicate 180 Tick) (initial sample_pool zero)))
     \<noteq> score (run id (replicate 180 Tick) (initial sample_pool zero))"
proof -
  have "run id (replicate 180 Tick) (initial sample_pool zero)
          = (initial sample_pool zero) \<lparr> timeLeft := timeLeft (initial sample_pool zero) - int 180 \<rparr>"
    by (rule run_ticks) (simp_all add: sample_start)
  then show ?thesis
    unfolding sample_start
    by (simp add: deliver_def submitGuess_def settle_eq sample_guesses sample_books_of
        utf16_empty_iff)
qed

text \<open>
  C2, amended: starting from \<open>timeLeft = 180\<close>, once exactly 181 ticks have fired, in any
  orderly sequence of events, the status is \<open>ended\<close> and \<open>gameEnded\<close> is true, and from then
  on no sequence of guesses and skips, however long, changes the score.
\<close>

theorem ended_after_181_ticks:
  assumes "orderly u es (initial P r)"
    and "count_list es Tick = 181"
    and "list_all guess_or_skip us"
  shows "feedbackStatus (run u es (initial P r)) = ''ended'' \<and>
         gameEnded (run u es (initial P r)) \<and>
         score (run u us (run u es (initial P r))) = score (run u es (initial P r))"
proof -
  from initial_settled [of P r]
  have st: "settled (initial P r)" and tl: "timeLeft (initial P r) = int 180" by simp_all
  from clock_run [OF st assms(1) tl] assms(2)
  have en: "gameEnded (run u es (initial P r))" by simp
  from settled_run [OF st assms(1)]
  have se: "settled (run u es (initial P r))" .
  then have "microtasks (run u es (initial P r)) = []" by (simp add: settled_def quiet_def)
  from ended_guess_or_skip [OF this en assms(3)] en se show ?thesis
    by (simp add: settled_def)
qed

theorem ended_after_181_ticks_witness:
  "orderly id sample_game (initial sample_pool zero) \<and>
   count_list sample_game Tick = 181 \<and>
   list_all guess_or_skip [SubmitGuess (Some (utf16 ''Genesis'')), SkipVerse] \<and>
   feedbackStatus (run id sample_game (initial sample_pool zero)) = ''ended'' \<and>
   gameEnded (run id sample_game (initial sample_pool zero)) \<and>
   score (run id [SubmitGuess (Some (utf16 ''Genesis'')), SkipVerse]
           (run id sample_game (initial sample_pool zero)))
     = score (run id sample_game (initial sample_pool zero))"
proof -
  have l: "list_all guess_or_skip [SubmitGuess (Some (utf16 ''Genesis'')), SkipVerse]"
    by simp
  from ended_after_181_ticks [OF sample_game_orderly sample_game_ticks l, of id]
    sample_game_orderly [of id] sample_game_ticks l
  show ?thesis by simp
qed

subsection \<open>The state invariant\<close>

text \<open>
  C3 as it is written fails in two ways. \<open>endGame\<close>, taken as an operation of its own and
  applied to the sample game at its start, sets \<open>gameEnded\<close> while 180 seconds are left.
  And \<open>nextVerse\<close>, applied after the 181 ticks that end the game, wipes the status
  \<open>ended\<close> and leaves \<open>gameEnded\<close> set.
\<close>

theorem ended_out_of_order:
  "\<not> (gameEnded (run id [EndGame] (initial sample_pool zero)) \<longleftrightarrow>
        feedbackStatus (run id [EndGame] (initial sample_pool zero)) = ''ended'' \<and>
        timeLeft (run id [EndGame] (initial sample_pool zero)) = 0) \<and>
   \<not> (gameEnded (run id (replicate 181 Tick @ [NextVerse zero]) (initial sample_pool zero)) \<longleftrightarrow>
        feedbackStatus (run id (replicate 181 Tick @ [NextVerse zero]) (initial sample_pool zero))
          = ''ended'' \<and>
        timeLeft (run id (replicate 181 Tick @ [NextVerse zero]) (initial sample_pool zero)) = 0)"
proof -
  from initial_settled [of sample_pool zero]
  have st: "settled (initial sample_pool zero)"
    and tl: "timeLeft (initial sample_pool zero) = int 180" by simp_all
  from clock_run [OF st orderly_ticks tl, of id 181]
  have "gameEnded (run id (replicate 181 Tick) (initial sample_pool zero))"
    by (simp add: count_list_ticks)
  then have "gameEnded (run id (replicate 181 Tick @ [NextVerse zero]) (initial sample_pool zero)) \<and>
      feedbackStatus (run id (replicate 181 Tick @ [NextVerse zero]) (initial sample_pool zero)) = []"
    by (simp add: run_append deliver_def nextVerse_def settle_eq)
  moreover have "gameEnded (run id [EndGame] (initial sample_pool zero)) \<and>
      timeLeft (run id [EndGame] (initial sample_pool zero)) = 180"
    unfolding sample_start by (simp add: deliver_def endGame_def settle_eq)
  ultimately show ?thesis by simp
qed

text \<open>
  C3, amended: in every state reached from the initial state by ticks, \<open>nextVerse\<close>,
  \<open>submitGuess\<close>, \<open>skipVerse\<close> and \<open>endGame\<close> in any order, the feedback is visible only when
  the status is not \<open>none\<close>, and the status is \<open>ended\<close> only when \<open>gameEnded\<close> is true; and as
  long as \<open>endGame\<close> has been called only with the clock at 0 and \<open>nextVerse\<close> has not been
  called while the status was \<open>ended\<close>, \<open>gameEnded\<close> is true if and only if the status is
  \<open>ended\<close> and \<open>timeLeft\<close> is 0.
\<close>

theorem feedback_and_end_invariant:
  "(feedbackVisible (run u es (initial P r)) \<longrightarrow> feedbackStatus (run u es (initial P r)) \<noteq> []) \<and>
   (feedbackStatus (run u es (initial P r)) = ''ended'' \<longrightarrow> gameEnded (run u es (initial P r))) \<and>
   (orderly u es (initial P r) \<longrightarrow>
      (gameEnded (run u es (initial P r)) \<longleftrightarrow>
         feedbackStatus (run u es (initial P r)) = ''ended'' \<and>
         timeLeft (run u es (initial P r)) = 0))"
proof (intro conjI impI)
  from initial_settled [of P r] have "quiet (initial P r)" by (simp add: settled_def)
  then have q: "quiet (run u es (initial P r))" by (rule quiet_run)
  then show "feedbackStatus (run u es (initial P r)) \<noteq> []"
    if "feedbackVisible (run u es (initial P r))"
    using that by (simp add: quiet_def)
  from q show "gameEnded (run u es (initial P r))"
    if "feedbackStatus (run u es (initial P r)) = ''ended''"
    using that by (simp add: quiet_def)
next
  assume "orderly u es (initial P r)"
  with initial_settled [of P r] have "settled (run u es (initial P r))"
    by (simp add: settled_run)
  then show "gameEnded (run u es (initial P r)) \<longleftrightarrow>
        feedbackStatus (run u es (initial P r)) = ''ended'' \<and>
        timeLeft (run u es (initial P r)) = 0"
    by (auto simp: settled_def)
qed

theorem feedback_and_end_invariant_witness:
  "orderly id sample_game (initial sample_pool zero) \<and>
   feedbackVisible (run id sample_game (initial sample_pool zero)) \<and>
   feedbackStatus (run id sample_game (initial sample_pool zero)) \<noteq> [] \<and>
   gameEnded (run id sample_game (initial sample_pool zero)) \<and>
   feedbackStatus (run id sample_game (initial sample_pool zero)) = ''ended'' \<and>
   timeLeft (run id sample_game (initial sample_pool zero)) = 0"
proof -
  from sample_game_over [of id]
  have "gameEnded (run id sample_game (initial sample_pool zero))"
    and "feedbackVisible (run id sample_game (initial sample_pool zero))"
    by (auto simp: settled_def)
  with feedback_and_end_invariant [of id sample_game sample_pool zero]
    sample_game_orderly [of id]
  show ?thesis by simp
qed

subsection \<open>Guessing\<close>

text \<open>
  C4: when \<open>submitGuess\<close> gets as far as its comparison (no feedback showing, game not
  ended, a current verse with a book name) with a guess that is not empty once trimmed,
  it returns normally; if the trimmed guess equals the book name up to letter case the
  status becomes \<open>correct\<close> and the score goes up by 1, and if not the status becomes
  \<open>wrong\<close> and the score stays. This holds for every guess and every book name, ASCII or
  not, and whatever the case tables of the engine are.
\<close>

theorem submitGuess_compares_up_to_case:
  assumes "\<not> feedbackVisible s" and "\<not> gameEnded s"
    and "currentVerse s = Some v" and "book v = Some b"
    and "trim raw \<noteq> []"
  shows "thrown (submitGuess u (Some raw) s) = None \<and>
         feedbackStatus (state_of (submitGuess u (Some raw) s))
           = (if same_ignoring_case u (trim raw) b then ''correct'' else ''wrong'') \<and>
         score (state_of (submitGuess u (Some raw) s))
           = (if same_ignoring_case u (trim raw) b then score s + 1 else score s)"
  using assms by (simp add: submitGuess_def toLowerCase_eq_iff)

theorem submitGuess_compares_up_to_case_witness:
  "\<not> feedbackVisible (initial sample_pool zero) \<and> \<not> gameEnded (initial sample_pool zero) \<and>
   currentVerse (initial sample_pool zero) = Some genesis \<and>
   book genesis = Some (utf16 ''Genesis'') \<and>
   trim ([0x20] @ utf16 ''GENESIS'' @ [0xA0]) \<noteq> [] \<and>
   same_ignoring_case id (trim ([0x20] @ utf16 ''GENESIS'' @ [0xA0])) (utf16 ''Genesis'') \<and>
   thrown (submitGuess id (Some ([0x20] @ utf16 ''GENESIS'' @ [0xA0])) (initial sample_pool zero))
     = None \<and>
   feedbackStatus (state_of
       (submitGuess id (Some ([0x20] @ utf16 ''GENESIS'' @ [0xA0])) (initial sample_pool zero)))
     = ''correct'' \<and>
   score (state_of
       (submitGuess id (Some ([0x20] @ utf16 ''GENESIS'' @ [0xA0])) (initial sample_pool zero)))
     = score (initial sample_pool zero) + 1"
proof -
  have h: "\<not> feedbackVisible (initial sample_pool zero)" "\<not> gameEnded (initial sample_pool zero)"
    "currentVerse (initial sample_pool zero) = Some genesis"
    "book genesis = Some (utf16 ''Genesis'')"
    by (simp_all add: sample_start sample_books_of)
  have t: "trim ([0x20] @ utf16 ''GENESIS'' @ [0xA0]) = utf16 ''GENESIS''"
    by (simp add: trim_def is_space_def utf16_def)
  have n: "utf16 ''GENESIS'' \<noteq> []"
    by (simp add: utf16_def)
  have e: "same_ignoring_case id (utf16 ''GENESIS'') (utf16 ''Genesis'')"
    by (simp add: same_ignoring_case_def equal_up_to_case_def same_letter_def capital_pair
        is_upper_def is_ascii_def utf16_def)
  from submitGuess_compares_up_to_case
    [OF h, of "[0x20] @ utf16 ''GENESIS'' @ [0xA0]" id] h t n e
  show ?thesis by simp
qed

text \<open>
  C5: for every state with a non-empty pool and every double that \<open>Math.random()\<close> can
  return, \<open>nextVerse\<close> makes a member of the pool the current verse and sets
  \<open>feedbackVisible\<close> to false. The index is the floor of the rounded product, as the
  engine computes it.
\<close>

theorem nextVerse_selects_member:
  assumes "verses s \<noteq> []" and "random_value r"
  shows "(\<exists>v. currentVerse (nextVerse r s) = Some v \<and> v \<in> set (verses s)) \<and>
         \<not> feedbackVisible (nextVerse r s)"
proof -
  from assms(1) have "0 < length (verses s)" by simp
  from random_index_range [OF assms(2) this]
  show ?thesis by (simp add: nextVerse_def at_index_def nat_less_iff)
qed

theorem nextVerse_selects_member_witness:
  "verses (deliver id SkipVerse (initial sample_pool zero)) \<noteq> [] \<and>
   random_value seven_tenths \<and>
   feedbackVisible (deliver id SkipVerse (initial sample_pool zero)) \<and>
   (\<exists>v. currentVerse (nextVerse seven_tenths (deliver id SkipVerse (initial sample_pool zero)))
          = Some v \<and>
        v \<in> set (verses (deliver id SkipVerse (initial sample_pool zero)))) \<and>
   currentVerse (nextVerse seven_tenths (deliver id SkipVerse (initial sample_pool zero)))
     = Some psalms \<and>
   \<not> feedbackVisible (nextVerse seven_tenths (deliver id SkipVerse (initial sample_pool zero)))"
proof -
  have v: "verses (deliver id SkipVerse (initial sample_pool zero)) = sample_pool"
    and f: "feedbackVisible (deliver id SkipVerse (initial sample_pool zero))"
    unfolding after_skip by (simp_all add: sample_start)
  have p: "verses (deliver id SkipVerse (initial sample_pool zero)) \<noteq> []"
    unfolding v by (simp add: sample_pool_def)
  have c: "currentVerse (nextVerse seven_tenths (deliver id SkipVerse (initial sample_pool zero)))
             = Some psalms"
    by (simp add: nextVerse_def v sample_draws sample_verses)
  from nextVerse_selects_member [OF p sample_draws(3)] p sample_draws(3) f c
  show ?thesis by simp
qed

text \<open>
  C6: in every state, \<open>submitGuess\<close> with an input that is empty or consists of white
  space only returns with the state as it was; so \<open>feedbackVisible\<close> and the score are
  what they were.
\<close>

theorem submitGuess_blank_is_noop:
  assumes "list_all is_space raw"
  shows "submitGuess u (Some raw) s = Normal s"
  using assms by (simp add: submitGuess_def trim_empty_iff)

theorem submitGuess_blank_is_noop_witness:
  "list_all is_space [0x20, 0xA0, 0x09, 0x3000] \<and>
   submitGuess id (Some [0x20, 0xA0, 0x09, 0x3000])
       (run id [SubmitGuess (Some (utf16 ''genesis'')), NextVerse one_half]
          (initial sample_pool zero))
     = Normal (run id [SubmitGuess (Some (utf16 ''genesis'')), NextVerse one_half]
          (initial sample_pool zero)) \<and>
   \<not> feedbackVisible (state_of (submitGuess id (Some [0x20, 0xA0, 0x09, 0x3000])
       (run id [SubmitGuess (Some (utf16 ''genesis'')), NextVerse one_half]
          (initial sample_pool zero)))) \<and>
   score (state_of (submitGuess id (Some [0x20, 0xA0, 0x09, 0x3000])
       (run id [SubmitGuess (Some (utf16 ''genesis'')), NextVerse one_half]
          (initial sample_pool zero)))) = 1"
proof -
  have h: "list_all is_space [0x20, 0xA0, 0x09, 0x3000]"
    by (simp add: is_space_def)
  from submitGuess_blank_is_noop [OF h] h show ?thesis
    unfolding after_guess_and_next by (simp add: sample_start)
qed

text \<open>
  C7: in every state where the feedback is visible or the game has ended, \<open>submitGuess\<close>
  (whatever the input) and \<open>skipVerse\<close> return with the whole state as it was, so a
  repeated click does nothing more.
\<close>

theorem guarded_handlers_are_noops:
  assumes "feedbackVisible s \<or> gameEnded s"
  shows "submitGuess u input s = Normal s \<and> skipVerse s = Normal s"
  using assms by (auto simp: submitGuess_def skipVerse_def)

theorem guarded_handlers_are_noops_witness:
  "(feedbackVisible (deliver id SkipVerse (initial sample_pool zero)) \<or>
    gameEnded (deliver id SkipVerse (initial sample_pool zero))) \<and>
   submitGuess id (Some (utf16 ''Genesis'')) (deliver id SkipVerse (initial sample_pool zero))
     = Normal (deliver id SkipVerse (initial sample_pool zero)) \<and>
   skipVerse (deliver id SkipVerse (initial sample_pool zero))
     = Normal (deliver id SkipVerse (initial sample_pool zero))"
proof -
  have h: "feedbackVisible (deliver id SkipVerse (initial sample_pool zero)) \<or>
           gameEnded (deliver id SkipVerse (initial sample_pool zero))"
    unfolding after_skip by (simp add: sample_start)
  from guarded_handlers_are_noops [OF h] h show ?thesis by simp
qed

subsection \<open>The score\<close>

text \<open>
  C8: whatever event is delivered in whatever state (a tick, \<open>nextVerse\<close>, \<open>submitGuess\<close>,
  \<open>skipVerse\<close>, \<open>endGame\<close>, or the arrival of a pool), the score does not go down; and if
  it changes, the event was a \<open>submitGuess\<close>, the status is \<open>correct\<close> afterwards, and the
  score has gone up by exactly 1.
\<close>

theorem score_only_grows_on_correct_guess:
  "score s \<le> score (deliver u e s) \<and>
   (score (deliver u e s) \<noteq> score s \<longrightarrow>
      (\<exists>input. e = SubmitGuess input) \<and>
      feedbackStatus (deliver u e s) = ''correct'' \<and>
      score (deliver u e s) = score s + 1)"
proof (cases e)
  case (LoadVerses books r1 resp r2)
  with deliver_LoadVerses [of u books r1 resp r2 s] show ?thesis
    by (auto simp: settle_eq)
qed (auto simp: handlers split: option.split)

theorem score_only_grows_on_correct_guess_witness:
  "score (initial sample_pool zero)
     \<le> score (deliver id (SubmitGuess (Some (utf16 ''genesis''))) (initial sample_pool zero)) \<and>
   score (deliver id (SubmitGuess (Some (utf16 ''genesis''))) (initial sample_pool zero))
     \<noteq> score (initial sample_pool zero) \<and>
   feedbackStatus (deliver id (SubmitGuess (Some (utf16 ''genesis''))) (initial sample_pool zero))
     = ''correct'' \<and>
   score (deliver id (SubmitGuess (Some (utf16 ''genesis''))) (initial sample_pool zero))
     = score (initial sample_pool zero) + 1"
proof -
  have "score (deliver id (SubmitGuess (Some (utf16 ''genesis''))) (initial sample_pool zero))
          \<noteq> score (initial sample_pool zero)"
    unfolding after_guess by (simp add: sample_start)
  with score_only_grows_on_correct_guess
    [of "initial sample_pool zero" id "SubmitGuess (Some (utf16 ''genesis''))"]
  show ?thesis by simp
qed

subsection \<open>An empty pool\<close>

text \<open>
  C9: if the pool is empty and the game has not ended, \<open>nextVerse\<close> leaves the current
  verse undefined, whatever the random number; \<open>skipVerse\<close> called next throws a
  \<open>TypeError\<close>, and so does \<open>submitGuess\<close> with an input that is not empty once trimmed.
\<close>

theorem empty_pool_throws:
  assumes "verses s = []" and "\<not> gameEnded s"
  shows "currentVerse (nextVerse r s) = None \<and>
         thrown (skipVerse (nextVerse r s)) = Some TypeError \<and>
         (trim raw \<noteq> [] \<longrightarrow>
            thrown (submitGuess u (Some raw) (nextVerse r s)) = Some TypeError)"
  using assms
  by (simp add: nextVerse_def at_index_def skipVerse_def submitGuess_def)

theorem empty_pool_throws_witness:
  "verses constructor = [] \<and> \<not> gameEnded constructor \<and>
   currentVerse (nextVerse zero constructor) = None \<and>
   thrown (skipVerse (nextVerse zero constructor)) = Some TypeError \<and>
   trim (utf16 ''Genesis'') \<noteq> [] \<and>
   thrown (submitGuess id (Some (utf16 ''Genesis'')) (nextVerse zero constructor))
     = Some TypeError"
proof -
  have h: "verses constructor = []" "\<not> gameEnded constructor"
    by (simp_all add: constructor_def)
  have t: "trim (utf16 ''Genesis'') \<noteq> []"
    by (simp add: sample_guesses utf16_empty_iff)
  from empty_pool_throws [OF h, of zero "utf16 ''Genesis''" id] h t show ?thesis by simp
qed

subsection \<open>The clock\<close>

text \<open>
  C10: the clock starts at 180; a tick either finds it above 0 and takes 1 off, or
  leaves it alone, ends the game and stops the interval; and in every state reached
  from the initial state by any events, \<open>timeLeft\<close> is not negative.
\<close>

theorem timeLeft_never_negative:
  "timeLeft (initial P r) = 180 \<and>
   0 \<le> timeLeft (run u es (initial P r)) \<and>
   (0 < timeLeft s \<and> timeLeft (tick s) = timeLeft s - 1 \<or>
    timeLeft s \<le> 0 \<and> timeLeft (tick s) = timeLeft s \<and>
      gameEnded (tick s) \<and> timerInterval (tick s) = False)"
proof -
  from initial_settled [of P r]
  have "quiet (initial P r)" and "timeLeft (initial P r) = 180"
    by (simp_all add: settled_def)
  moreover from this(1) have "quiet (run u es (initial P r))" by (rule quiet_run)
  ultimately show ?thesis
    by (auto simp: quiet_def tick_def endGame_def)
qed

theorem timeLeft_never_negative_witness:
  "timeLeft (initial sample_pool zero) = 180 \<and>
   0 \<le> timeLeft (run id (sample_game @ [Tick, Tick]) (initial sample_pool zero)) \<and>
   timeLeft (tick (run id sample_game (initial sample_pool zero))) = 0"
proof -
  have "timeLeft (run id sample_game (initial sample_pool zero)) = 0"
    using sample_game_over [of id] by (auto simp: settled_def)
  with timeLeft_never_negative
    [of sample_pool zero id "sample_game @ [Tick, Tick]"
        "run id sample_game (initial sample_pool zero)"]
  show ?thesis by simp
qed

end
